theory Spec2Isabelle
  imports Main
begin

section \<open>The image labeler of \<open>label_data.py\<close>\<close>

text \<open>
  The program is one class, \<open>Labeler\<close>, whose methods are callbacks of a window: they
  mutate the attributes of the object and rewrite one CSV file. The embedding is by
  explicit state passing: a method takes the state and returns the state it leaves,
  together with the exception it raised, if any. The window itself (canvas, list box,
  buttons) is left out; what the callbacks read from it is an argument.
\<close>

subsection \<open>Exceptions\<close>

datatype py_error =
    IndexError | KeyError | ValueError | FileNotFoundError | EmptyDataError | ParserError

text \<open>
  A callback of the window that raises does not end the program: the window reports the
  exception and waits for the next event, and the attributes keep what the callback
  assigned before it raised. So a method returns a pair.
\<close>

type_synonym 'a outcome = "py_error option \<times> 'a"

subsection \<open>Python lists\<close>

text \<open>\<open>xs[i]\<close>: a negative index counts from the end, an index out of range raises.\<close>

definition py_getitem :: "'a list \<Rightarrow> int \<Rightarrow> py_error + 'a" where
  "py_getitem xs i =
     (if 0 \<le> i \<and> i < int (length xs) then Inr (xs ! nat i)
      else if i < 0 \<and> - int (length xs) \<le> i then Inr (xs ! nat (int (length xs) + i))
      else Inl IndexError)"

text \<open>\<open>s.endswith(t)\<close>\<close>

definition endswith :: "string \<Rightarrow> string \<Rightarrow> bool" where
  "endswith s t = (length t \<le> length s \<and> drop (length s - length t) s = t)"

subsection \<open>Images and the crop\<close>

text \<open>
  A decoded raster image: its size and its pixels. \<open>crop\<close> is the imaging library's
  \<open>Image.crop(box)\<close> with \<open>box = (left, upper, right, lower)\<close>: it refuses a box whose
  right edge is left of its left edge or whose lower edge is above its upper edge, and
  otherwise returns an image of the size of the box; a pixel of the box that lies outside
  the source image is a zero pixel.
\<close>

record pil_image =
  width :: int
  height :: int
  pixel :: "int \<Rightarrow> int \<Rightarrow> nat"

type_synonym box = "int \<times> int \<times> int \<times> int"

definition crop :: "pil_image \<Rightarrow> box \<Rightarrow> py_error + pil_image" where
  "crop im b =
     (case b of (left, upper, right, lower) \<Rightarrow>
        if right < left then Inl ValueError
        else if lower < upper then Inl ValueError
        else Inr \<lparr>width = right - left, height = lower - upper,
                  pixel = (\<lambda>x y. if 0 \<le> left + x \<and> left + x < width im \<and>
                                      0 \<le> upper + y \<and> upper + y < height im
                                   then pixel im (left + x) (upper + y) else 0)\<rparr>)"

definition IMAGE_CROP_AREA :: box where
  "IMAGE_CROP_AREA = (1020, 510, 1300, 1350)"

definition prepare_image :: "pil_image \<Rightarrow> py_error + pil_image" where
  "prepare_image im = crop im IMAGE_CROP_AREA"

text \<open>The crop rectangle exceeds the bounds of an image.\<close>

definition exceeds_bounds :: "box \<Rightarrow> pil_image \<Rightarrow> bool" where
  "exceeds_bounds b im =
     (case b of (left, upper, right, lower) \<Rightarrow>
        left < 0 \<or> upper < 0 \<or> width im < right \<or> height im < lower)"

subsection \<open>Data frames\<close>

text \<open>
  A cell of a data frame is a text, a number or the missing value. A row gives the cell
  of every column name (the missing value for a name that is not a column); a frame is
  the list of its column names and the list of its rows, in order, so a frame can hold
  several rows with the same image. The row labels of the frame are not modelled: the
  program appends with \<open>ignore_index\<close>, selects by mask and writes without the index.
  Nor are the types of the columns: a number is a number, whether the library holds it
  as an integer or, in a column with a missing value, as a floating-point number.
\<close>

datatype cell = Str string | Num int | NaN

type_synonym row = "string \<Rightarrow> cell"

record dataframe =
  columns :: "string list"
  rows :: "row list"

text \<open>\<open>pd.DataFrame(columns=['image', 'label', 'door_id'])\<close>\<close>

definition empty_frame :: dataframe where
  "empty_frame = \<lparr>columns = [''image'', ''label'', ''door_id''], rows = []\<rparr>"

text \<open>\<open>df[c].values\<close>: the cells of a column, or \<open>KeyError\<close> when there is no such column.\<close>

definition column_values :: "dataframe \<Rightarrow> string \<Rightarrow> py_error + cell list" where
  "column_values df c =
     (if c \<in> set (columns df) then Inr (map (\<lambda>r. r c) (rows df)) else Inl KeyError)"

text \<open>Comparison of a cell with a value: the missing value equals nothing.\<close>

definition cell_eq :: "cell \<Rightarrow> cell \<Rightarrow> bool" where
  "cell_eq a b = (a \<noteq> NaN \<and> b \<noteq> NaN \<and> a = b)"

text \<open>A column that is not there yet is added at the end, missing in every row.\<close>

definition add_column :: "string \<Rightarrow> dataframe \<Rightarrow> dataframe" where
  "add_column c df =
     (if c \<in> set (columns df) then df
      else \<lparr>columns = columns df @ [c], rows = map (\<lambda>r. r(c := NaN)) (rows df)\<rparr>)"

text \<open>\<open>df.loc[mask, c] = v\<close>: the cell of column \<open>c\<close> in every row the mask selects.\<close>

definition loc_set :: "bool list \<Rightarrow> string \<Rightarrow> cell \<Rightarrow> dataframe \<Rightarrow> dataframe" where
  "loc_set sel c v df =
     (let df1 = add_column c df
      in \<lparr>columns = columns df1,
          rows = map (\<lambda>(m, r). if m then r(c := v) else r) (zip sel (rows df1))\<rparr>)"

text \<open>
  \<open>df.append(d, ignore_index=True)\<close> for a dict \<open>d\<close>, in the versions of the library
  that have the method: one more row at the end, missing in the columns the dict does not
  name; the keys that are no columns yet become columns.
\<close>

definition append_row :: "(string \<times> cell) list \<Rightarrow> dataframe \<Rightarrow> dataframe" where
  "append_row d df =
     (let df1 = fold add_column (map fst d) df
      in \<lparr>columns = columns df1,
          rows = rows df1 @ [\<lambda>c. case map_of d c of Some v \<Rightarrow> v | None \<Rightarrow> NaN]\<rparr>)"

subsection \<open>The CSV file\<close>

text \<open>
  A CSV file is kept as the records its lines hold, each the list of its fields, the
  header first: the delimiters and the quoting of the fields are the business of the
  CSV library and are the same on the way out and on the way in. What is modelled is
  what the reader makes of the fields. It takes these for a missing value:
\<close>

definition na_values :: "string list" where
  "na_values = ['''', ''#N/A'', ''#N/A N/A'', ''#NA'', ''-1.#IND'', ''-1.#QNAN'', ''-NaN'',
     ''-nan'', ''1.#IND'', ''1.#QNAN'', ''<NA>'', ''N/A'', ''NA'', ''NULL'', ''NaN'', ''n/a'',
     ''nan'', ''null'']"

definition is_na :: "string \<Rightarrow> bool" where
  "is_na f = (f \<in> set na_values)"

text \<open>An integer literal: digits, after an optional sign.\<close>

definition is_digit :: "char \<Rightarrow> bool" where
  "is_digit c = (c \<in> set ''0123456789'')"

definition int_literal :: "string \<Rightarrow> bool" where
  "int_literal f =
     (case f of [] \<Rightarrow> False
      | c # cs \<Rightarrow> if c = CHR ''-'' \<or> c = CHR ''+'' then cs \<noteq> [] \<and> list_all is_digit cs
                  else list_all is_digit f)"

definition digit_value :: "char \<Rightarrow> int" where
  "digit_value c = int (of_char c) - 48"

definition parse_nat :: "string \<Rightarrow> int" where
  "parse_nat cs = foldl (\<lambda>a c. 10 * a + digit_value c) 0 cs"

definition parse_int :: "string \<Rightarrow> int" where
  "parse_int f =
     (case f of [] \<Rightarrow> 0
      | c # cs \<Rightarrow> if c = CHR ''-'' then - parse_nat cs
                  else if c = CHR ''+'' then parse_nat cs else parse_nat f)"

text \<open>The decimal digits of a number, as the writer prints an integer.\<close>

definition digit_char :: "nat \<Rightarrow> char" where
  "digit_char d = ''0123456789'' ! d"

function show_nat :: "nat \<Rightarrow> string" where
  "show_nat n =
     (if n < 10 then [digit_char n] else show_nat (n div 10) @ [digit_char (n mod 10)])"
  by pat_completeness auto
termination
  by (relation "measure id") auto

definition show_int :: "int \<Rightarrow> string" where
  "show_int i = (if i < 0 then CHR ''-'' # show_nat (nat (- i)) else show_nat (nat i))"

text \<open>\<open>to_csv(path, index=False)\<close>: the column names, then every row; a missing value is
  written as the empty field.\<close>

type_synonym csv_file = "string list list"

definition render :: "cell \<Rightarrow> string" where
  "render v = (case v of Str t \<Rightarrow> t | Num i \<Rightarrow> show_int i | NaN \<Rightarrow> '''')"

definition to_csv :: "dataframe \<Rightarrow> csv_file" where
  "to_csv df = columns df # map (\<lambda>r. map (\<lambda>c. render (r c)) (columns df)) (rows df)"

text \<open>
  \<open>pd.read_csv(path)\<close> on the records of the file. A file without a header raises
  \<open>EmptyDataError\<close>. The width of the table is that of the header or of the first record,
  whichever is longer; a later record with more fields raises \<open>ParserError\<close>, a shorter
  one is filled with empty fields, and where the records are wider than the header their
  leading fields are row labels, not columns. The type of a column is inferred from all
  its fields: a column whose fields are all integer literals or missing is numeric, any
  other column is text; a field that is a missing-value token is missing in both.
  Integers are unbounded here; the 64-bit limit of the reader, its floating-point and
  boolean columns, its renaming of repeated or empty header names and its skipping of
  blank lines are not modelled.
\<close>

definition table_width :: "string list \<Rightarrow> string list list \<Rightarrow> nat" where
  "table_width h recs = (case recs of [] \<Rightarrow> length h | r # _ \<Rightarrow> max (length h) (length r))"

definition record_fields :: "string list \<Rightarrow> nat \<Rightarrow> string list \<Rightarrow> (string \<rightharpoonup> string)" where
  "record_fields h w r = map_of (zip h (drop (w - length h) (r @ replicate (w - length r) '''')))"

definition numeric_column :: "(string \<rightharpoonup> string) list \<Rightarrow> string \<Rightarrow> bool" where
  "numeric_column body c =
     list_all (\<lambda>m. case m c of None \<Rightarrow> True | Some f \<Rightarrow> is_na f \<or> int_literal f) body"

definition read_cell :: "bool \<Rightarrow> string \<Rightarrow> cell" where
  "read_cell numeric f = (if is_na f then NaN else if numeric then Num (parse_int f) else Str f)"

definition read_row :: "(string \<rightharpoonup> string) list \<Rightarrow> (string \<rightharpoonup> string) \<Rightarrow> row" where
  "read_row body m =
     (\<lambda>c. case m c of None \<Rightarrow> NaN | Some f \<Rightarrow> read_cell (numeric_column body c) f)"

definition read_csv :: "csv_file \<Rightarrow> py_error + dataframe" where
  "read_csv file =
     (case file of [] \<Rightarrow> Inl EmptyDataError
      | h # recs \<Rightarrow>
          let w = table_width h recs
          in if list_ex (\<lambda>r. w < length r) recs then Inl ParserError
             else let body = map (record_fields h w) recs
                  in Inr \<lparr>columns = h, rows = map (read_row body) body\<rparr>)"

subsection \<open>The labeler\<close>

text \<open>
  The attributes of a \<open>Labeler\<close> that its methods read and write, and the two parts of
  the file system they touch: the CSV files by path, and the images of the image
  directory by file name (a file that is missing or does not decode is absent).
\<close>

record labeler =
  door_id :: int
  path_to_images :: string
  path_to_csv :: string
  image_files :: "string list"
  labels :: "string list"
  current_image :: "string option"
  current_image_index :: int
  current_label :: "string option"
  current_label_index :: int
  image' :: "pil_image option"
  doors_df :: dataframe
  csv_files :: "string \<rightharpoonup> csv_file"
  image_dir :: "string \<rightharpoonup> pil_image"

text \<open>
  \<open>load_image_files\<close>: the names of the directory listing that end in \<open>.jpg\<close> or
  \<open>.png\<close>, in the order the listing has them, then shuffled; the permutation that
  \<open>random.shuffle\<close> picks is an argument.
\<close>

definition load_image_files :: "string list \<Rightarrow> (string list \<Rightarrow> string list) \<Rightarrow> string list" where
  "load_image_files listing shuffle =
     shuffle (filter (\<lambda>file. endswith file ''.jpg'' \<or> endswith file ''.png'') listing)"

text \<open>\<open>load_csv\<close>: the frame it assigns to \<open>doors_df\<close>, or the exception of the reader.\<close>

definition load_csv :: "(string \<rightharpoonup> csv_file) \<Rightarrow> string \<Rightarrow> py_error + dataframe" where
  "load_csv files path =
     (case files path of Some file \<Rightarrow> read_csv file | None \<Rightarrow> Inr empty_frame)"

text \<open>
  \<open>load_image\<close>, without the canvas: the file name at the image index becomes
  \<open>current_image\<close>, then the file is opened and prepared.
\<close>

definition load_image :: "labeler \<Rightarrow> labeler outcome" where
  "load_image s =
     (case py_getitem (image_files s) (current_image_index s) of
        Inl e \<Rightarrow> (Some e, s)
      | Inr file \<Rightarrow>
          let s1 = s\<lparr>current_image := Some file\<rparr>
          in case image_dir s1 file of
               None \<Rightarrow> (Some FileNotFoundError, s1)
             | Some im \<Rightarrow>
                 let s2 = s1\<lparr>image' := Some im\<rparr>
                 in case prepare_image im of
                      Inl e \<Rightarrow> (Some e, s2)
                    | Inr p \<Rightarrow> (None, s2\<lparr>image' := Some p\<rparr>))"

text \<open>
  \<open>save\<close>. The row written is that of \<open>current_image\<close>, the image on display. The
  update of the frame is \<open>upsert\<close> (lines 116 to 122), the rewrite of the file is the
  last line. The file system is taken to accept the write.
\<close>

definition image_cell :: "string option \<Rightarrow> cell" where
  "image_cell img = (case img of None \<Rightarrow> NaN | Some file \<Rightarrow> Str file)"

definition upsert :: "string option \<Rightarrow> string \<Rightarrow> int \<Rightarrow> dataframe \<Rightarrow> py_error + dataframe" where
  "upsert img lab door df =
     (case column_values df ''image'' of
        Inl e \<Rightarrow> Inl e
      | Inr vals \<Rightarrow>
          if list_ex (\<lambda>v. cell_eq v (image_cell img)) vals
          then Inr (loc_set (map (\<lambda>v. cell_eq v (image_cell img)) vals) ''label'' (Str lab) df)
          else Inr (append_row [(''image'', image_cell img), (''label'', Str lab),
                                (''door_id'', Num door)] df))"

definition save :: "labeler \<Rightarrow> labeler outcome" where
  "save s =
     (case current_label s of
        None \<Rightarrow> (None, s)
      | Some lab \<Rightarrow>
          (case upsert (current_image s) lab (door_id s) (doors_df s) of
             Inl e \<Rightarrow> (Some e, s)
           | Inr df \<Rightarrow>
               (None, s\<lparr>doors_df := df,
                         csv_files := (csv_files s)(path_to_csv s \<mapsto> to_csv df)\<rparr>)))"

definition previous_image :: "labeler \<Rightarrow> labeler outcome" where
  "previous_image s =
     (case save s of
        (Some e, s1) \<Rightarrow> (Some e, s1)
      | (None, s1) \<Rightarrow>
          let s2 = s1\<lparr>current_image_index := current_image_index s1 - 1\<rparr>;
              s3 = (if current_image_index s2 < 0
                    then s2\<lparr>current_image_index := int (length (image_files s2)) - 1\<rparr>
                    else s2)
          in load_image s3)"

definition next_image :: "bool \<Rightarrow> labeler \<Rightarrow> labeler outcome" where
  "next_image no_save s =
     (case (if no_save = False then save s else (None, s)) of
        (Some e, s1) \<Rightarrow> (Some e, s1)
      | (None, s1) \<Rightarrow>
          let s2 = s1\<lparr>current_image_index := current_image_index s1 + 1\<rparr>;
              s3 = (if current_image_index s2 \<ge> int (length (image_files s2))
                    then s2\<lparr>current_image_index := 0\<rparr>
                    else s2)
          in load_image s3)"

definition skip_image :: "labeler \<Rightarrow> labeler outcome" where
  "skip_image s = next_image True s"

text \<open>The two label keys, without the list box.\<close>

definition previous_label :: "labeler \<Rightarrow> labeler outcome" where
  "previous_label s =
     (let s1 = s\<lparr>current_label_index := current_label_index s - 1\<rparr>;
          s2 = (if current_label_index s1 < 0
                then s1\<lparr>current_label_index := int (length (labels s1)) - 1\<rparr>
                else s1)
      in case py_getitem (labels s2) (current_label_index s2) of
           Inl e \<Rightarrow> (Some e, s2)
         | Inr l \<Rightarrow> (None, s2\<lparr>current_label := Some l\<rparr>))"

definition next_label :: "labeler \<Rightarrow> labeler outcome" where
  "next_label s =
     (let s1 = s\<lparr>current_label_index := current_label_index s + 1\<rparr>;
          s2 = (if current_label_index s1 \<ge> int (length (labels s1))
                then s1\<lparr>current_label_index := 0\<rparr>
                else s1)
      in case py_getitem (labels s2) (current_label_index s2) of
           Inl e \<Rightarrow> (Some e, s2)
         | Inr l \<Rightarrow> (None, s2\<lparr>current_label := Some l\<rparr>))"

text \<open>
  \<open>select_label\<close>: the argument is what \<open>curselection()\<close> of the list box returns, the
  positions of the selected entries; the list box holds one entry for each label.
\<close>

definition select_label :: "nat list \<Rightarrow> labeler \<Rightarrow> labeler outcome" where
  "select_label curselection s =
     (case py_getitem curselection 0 of
        Inl e \<Rightarrow> (Some e, s)
      | Inr i \<Rightarrow>
          let s1 = s\<lparr>current_label_index := int i\<rparr>
          in case py_getitem (labels s1) (current_label_index s1) of
               Inl e \<Rightarrow> (Some e, s1)
             | Inr l \<Rightarrow> (None, s1\<lparr>current_label := Some l\<rparr>))"

text \<open>
  \<open>__init__\<close>, without the window: the attributes, the image files, the frame and the
  first image. An exception of the constructor is not caught: there is no object then.
  The arguments after \<open>door_id\<close> are the listing of the image directory, the permutation
  of the shuffle and the two parts of the file system.
\<close>

definition init ::
  "string \<Rightarrow> string \<Rightarrow> string list \<Rightarrow> int \<Rightarrow> string list \<Rightarrow> (string list \<Rightarrow> string list) \<Rightarrow>
   (string \<rightharpoonup> csv_file) \<Rightarrow> (string \<rightharpoonup> pil_image) \<Rightarrow> py_error + labeler" where
  "init images_path csv_path labs door listing shuffle files images =
     (case load_csv files csv_path of
        Inl e \<Rightarrow> Inl e
      | Inr df \<Rightarrow>
          (case load_image
                  \<lparr>door_id = door, path_to_images = images_path, path_to_csv = csv_path,
                   image_files = load_image_files listing shuffle, labels = labs,
                   current_image = None, current_image_index = 0, current_label = None,
                   current_label_index = 0, image' = None, doors_df = df,
                   csv_files = files, image_dir = images\<rparr> of
             (Some e, s) \<Rightarrow> Inl e
           | (None, s) \<Rightarrow> Inr s))"

definition DOOR_LABELS :: "string list" where
  "DOOR_LABELS = [''open'', ''closed'']"

subsection \<open>Notions of the properties\<close>

text \<open>Both indices are valid indices into their sequences.\<close>

definition valid_indices :: "labeler \<Rightarrow> bool" where
  "valid_indices s =
     (0 \<le> current_image_index s \<and> current_image_index s < int (length (image_files s)) \<and>
      0 \<le> current_label_index s \<and> current_label_index s < int (length (labels s)))"

text \<open>The same callback \<open>n\<close> times; the window goes on after a callback that raised.\<close>

fun repeat :: "nat \<Rightarrow> ('s \<Rightarrow> 's outcome) \<Rightarrow> 's \<Rightarrow> 's" where
  "repeat 0 f s = s"
| "repeat (Suc n) f s = repeat n f (snd (f s))"

text \<open>The rows of an image, and the rows of all other images.\<close>

definition rows_of :: "string \<Rightarrow> dataframe \<Rightarrow> row list" where
  "rows_of img df = filter (\<lambda>r. r ''image'' = Str img) (rows df)"

definition other_rows :: "string \<Rightarrow> dataframe \<Rightarrow> row list" where
  "other_rows img df = filter (\<lambda>r. r ''image'' \<noteq> Str img) (rows df)"

text \<open>
  A session to run the methods on: three images of 2000 by 1500 pixels, the two door
  labels, no CSV file yet, the first image on display and the first label selected.
\<close>

definition example_image :: pil_image where
  "example_image = \<lparr>width = 2000, height = 1500, pixel = (\<lambda>x y. 7)\<rparr>"

definition example_session :: labeler where
  "example_session =
     \<lparr>door_id = 1, path_to_images = ''actions'', path_to_csv = ''doors/doors.csv'',
      image_files = [''a.jpg'', ''b.jpg'', ''c.jpg''], labels = DOOR_LABELS,
      current_image = Some ''a.jpg'', current_image_index = 0,
      current_label = Some ''open'', current_label_index = 0,
      image' = None, doors_df = empty_frame, csv_files = Map.empty,
      image_dir = [''a.jpg'' \<mapsto> example_image, ''b.jpg'' \<mapsto> example_image,
                   ''c.jpg'' \<mapsto> example_image]\<rparr>"

text \<open>The frame of the example session once \<open>a.jpg\<close> is labelled \<open>open\<close>.\<close>

definition example_frame :: dataframe where
  "example_frame =
     \<lparr>columns = [''image'', ''label'', ''door_id''],
      rows = [\<lambda>c. case map_of [(''image'', Str ''a.jpg''), (''label'', Str ''open''),
                                  (''door_id'', Num 1)] c of Some v \<Rightarrow> v | None \<Rightarrow> NaN]\<rparr>"

text \<open>An image smaller than the crop rectangle, and two CSV files: one with a record of
  too many fields, one with a fourth column and a short record.\<close>

definition small_image :: pil_image where
  "small_image = \<lparr>width = 100, height = 100, pixel = (\<lambda>x y. 7)\<rparr>"


definition example_file :: csv_file where
  "example_file = [[''image'', ''label'', ''door_id'', ''note''],
                   [''a.jpg'', ''open'', ''1'', ''dark''],
                   [''b.jpg'', ''closed'', ''1'']]"

text \<open>The label cells of the rows of an image.\<close>

definition label_cells :: "string \<Rightarrow> dataframe \<Rightarrow> cell list" where
  "label_cells img df = map (\<lambda>r. r ''label'') (rows_of img df)"

text \<open>\<open>save\<close> with the label \<open>lab\<close> selected, by whichever callback selected it.\<close>

definition save_as :: "string \<Rightarrow> labeler \<Rightarrow> labeler" where
  "save_as lab s = snd (save (s\<lparr>current_label := Some lab\<rparr>))"

text \<open>A CSV file with two records for one image, and the labeler constructed on it (the
  directory also holds a file that is no image).\<close>

definition duplicate_file :: csv_file where
  "duplicate_file = [[''image'', ''label'', ''door_id''], [''a.jpg'', ''open'', ''1''],
                     [''a.jpg'', ''open'', ''1'']]"

definition duplicate_session :: "py_error + labeler" where
  "duplicate_session =
     init ''actions'' ''doors.csv'' DOOR_LABELS 1 [''a.jpg'', ''b.jpg'', ''notes.txt''] id
       [''doors.csv'' \<mapsto> duplicate_file]
       [''a.jpg'' \<mapsto> example_image, ''b.jpg'' \<mapsto> example_image]"


text \<open>
  A field that the reader takes for text whatever else its column holds: it is no
  missing-value token and no boolean literal, and it has a character that no number
  literal has (the characters of integers and floating-point numbers, of \<open>inf\<close>,
  \<open>infinity\<close> and \<open>nan\<close>, and white space).
\<close>

definition number_chars :: string where
  "number_chars = CHR 0x09 # ''0123456789+-.eE inftyaINFTYA''"

definition bool_values :: "string list" where
  "bool_values = [''True'', ''TRUE'', ''true'', ''False'', ''FALSE'', ''false'']"

definition plain_text :: "string \<Rightarrow> bool" where
  "plain_text f =
     (\<not> is_na f \<and> f \<notin> set bool_values \<and> \<not> list_all (\<lambda>c. c \<in> set number_chars) f)"





section \<open>Properties\<close>

subsection \<open>What the methods leave alone\<close>

lemma save_frame:
  "image_files (snd (save s)) = image_files s"
  "labels (snd (save s)) = labels s"
  "current_image_index (snd (save s)) = current_image_index s"
  "current_label_index (snd (save s)) = current_label_index s"
  "current_label (snd (save s)) = current_label s"
  "current_image (snd (save s)) = current_image s"
  by (auto simp: save_def split: option.splits sum.splits)

lemma load_image_frame:
  "image_files (snd (load_image s)) = image_files s"
  "labels (snd (load_image s)) = labels s"
  "current_image_index (snd (load_image s)) = current_image_index s"
  "current_label_index (snd (load_image s)) = current_label_index s"
  "current_label (snd (load_image s)) = current_label s"
  "doors_df (snd (load_image s)) = doors_df s"
  "csv_files (snd (load_image s)) = csv_files s"
  by (auto simp: load_image_def Let_def split: option.splits sum.splits)

lemma skip_image_frame:
  "image_files (snd (next_image True s)) = image_files s"
  "labels (snd (next_image True s)) = labels s"
  "current_label_index (snd (next_image True s)) = current_label_index s"
  "current_label (snd (next_image True s)) = current_label s"
  "doors_df (snd (next_image True s)) = doors_df s"
  "csv_files (snd (next_image True s)) = csv_files s"
  by (simp_all add: next_image_def Let_def load_image_frame)

lemma skip_image_index:
  "current_image_index (snd (next_image True s)) =
     (if int (length (image_files s)) \<le> current_image_index s + 1 then 0
      else current_image_index s + 1)"
  by (simp add: next_image_def Let_def load_image_frame)

lemma next_image_raised:
  assumes "fst (save s) = Some e"
  shows "next_image False s = (Some e, snd (save s))"
  using assms by (cases "save s") (simp add: next_image_def)

lemma previous_image_raised:
  assumes "fst (save s) = Some e"
  shows "previous_image s = (Some e, snd (save s))"
  using assms by (cases "save s") (simp add: previous_image_def)

lemma next_image_saved:
  assumes "fst (save s) = None"
  shows "image_files (snd (next_image False s)) = image_files s"
    and "labels (snd (next_image False s)) = labels s"
    and "current_label_index (snd (next_image False s)) = current_label_index s"
    and "current_label (snd (next_image False s)) = current_label s"
    and "doors_df (snd (next_image False s)) = doors_df (snd (save s))"
    and "csv_files (snd (next_image False s)) = csv_files (snd (save s))"
    and "current_image_index (snd (next_image False s)) =
          (if int (length (image_files s)) \<le> current_image_index s + 1 then 0
           else current_image_index s + 1)"
  using assms save_frame [of s]
  by (cases "save s"; simp add: next_image_def Let_def load_image_frame)+

lemma previous_image_saved:
  assumes "fst (save s) = None"
  shows "image_files (snd (previous_image s)) = image_files s"
    and "labels (snd (previous_image s)) = labels s"
    and "current_label_index (snd (previous_image s)) = current_label_index s"
    and "current_label (snd (previous_image s)) = current_label s"
    and "doors_df (snd (previous_image s)) = doors_df (snd (save s))"
    and "csv_files (snd (previous_image s)) = csv_files (snd (save s))"
    and "current_image_index (snd (previous_image s)) =
          (if current_image_index s - 1 < 0 then int (length (image_files s)) - 1
           else current_image_index s - 1)"
  using assms save_frame [of s]
  by (cases "save s"; simp add: previous_image_def Let_def load_image_frame)+

subsection \<open>When \<open>save\<close> raises\<close>

text \<open>
  \<open>save\<close> raises only where a label is selected and the frame has no \<open>image\<close> column.
  It leaves such a state as it is, so it raises there again; from any other state it
  reaches no such state.
\<close>

lemma columns_add_column: "set (columns df) \<subseteq> set (columns (add_column c df))"
  by (auto simp: add_column_def)

lemma columns_loc_set: "set (columns df) \<subseteq> set (columns (loc_set sel c v df))"
  using columns_add_column by (auto simp: loc_set_def Let_def)

lemma columns_fold_add: "set (columns df) \<subseteq> set (columns (fold add_column cs df))"
proof (induction cs arbitrary: df)
  case Nil
  show ?case by simp
next
  case (Cons c cs)
  have "set (columns df) \<subseteq> set (columns (add_column c df))" by (rule columns_add_column)
  also have "\<dots> \<subseteq> set (columns (fold add_column cs (add_column c df)))" by (rule Cons.IH)
  finally show ?case by simp
qed

lemma columns_append_row: "set (columns df) \<subseteq> set (columns (append_row d df))"
  using columns_fold_add by (auto simp: append_row_def Let_def)

lemma upsert_KeyError:
  "''image'' \<notin> set (columns df) \<Longrightarrow> upsert img lab door df = Inl KeyError"
  by (simp add: upsert_def column_values_def)

lemma upsert_columns:
  assumes "''image'' \<in> set (columns df)"
  shows "\<exists>df'. upsert img lab door df = Inr df' \<and> set (columns df) \<subseteq> set (columns df')"
  using assms columns_loc_set columns_append_row
  by (simp add: upsert_def column_values_def)

lemma save_raises:
  assumes "current_label s \<noteq> None" and "''image'' \<notin> set (columns (doors_df s))"
  shows "save s = (Some KeyError, s)"
  using assms by (auto simp: save_def upsert_KeyError)

lemma save_returns:
  assumes "current_label s = None \<or> ''image'' \<in> set (columns (doors_df s))"
  shows "fst (save s) = None"
    and "current_label s = None \<or> ''image'' \<in> set (columns (doors_df (snd (save s))))"
proof -
  show "fst (save s) = None"
  proof (cases "current_label s")
    case None
    then show ?thesis by (simp add: save_def)
  next
    case (Some lab)
    with assms have "''image'' \<in> set (columns (doors_df s))" by simp
    from upsert_columns [OF this] obtain df' where
      "upsert (current_image s) lab (door_id s) (doors_df s) = Inr df'" by blast
    with Some show ?thesis by (simp add: save_def)
  qed
  show "current_label s = None \<or> ''image'' \<in> set (columns (doors_df (snd (save s))))"
  proof (cases "current_label s")
    case None
    then show ?thesis by simp
  next
    case (Some lab)
    with assms have img: "''image'' \<in> set (columns (doors_df s))" by simp
    from upsert_columns [OF this] obtain df' where
      "upsert (current_image s) lab (door_id s) (doors_df s) = Inr df'"
      "set (columns (doors_df s)) \<subseteq> set (columns df')" by blast
    with Some img show ?thesis by (auto simp: save_def)
  qed
qed

subsection \<open>The image index after repeated steps\<close>

lemma wrap_forward:
  fixes i n :: int
  assumes "0 \<le> i" and "i < n"
  shows "(if n \<le> i + 1 then 0 else i + 1) = (i + 1) mod n"
proof (cases "n \<le> i + 1")
  case True
  with assms have "i + 1 = n" by simp
  then show ?thesis by simp
next
  case False
  with assms show ?thesis by simp
qed

lemma wrap_backward:
  fixes i n :: int
  assumes "0 \<le> i" and "i < n"
  shows "(if i - 1 < 0 then n - 1 else i - 1) = (i - 1) mod n"
proof (cases "i = 0")
  case True
  with assms show ?thesis by (simp add: zmod_minus1)
next
  case False
  with assms show ?thesis by simp
qed

lemma mod_in_range:
  fixes k n :: int
  assumes "0 < n"
  shows "0 \<le> k mod n" and "k mod n < n"
  using assms by simp_all

lemma repeat_raising:
  assumes "f s = (Some e, s)"
  shows "repeat n f s = s"
  using assms by (induction n) simp_all

lemma repeat_next_image:
  assumes "current_label s = None \<or> ''image'' \<in> set (columns (doors_df s))"
    and "0 \<le> current_image_index s" and "current_image_index s < int (length (image_files s))"
  shows "image_files (repeat n (next_image False) s) = image_files s \<and>
         (current_label (repeat n (next_image False) s) = None \<or>
          ''image'' \<in> set (columns (doors_df (repeat n (next_image False) s)))) \<and>
         current_image_index (repeat n (next_image False) s) =
           (current_image_index s + int n) mod int (length (image_files s))"
  using assms
proof (induction n arbitrary: s)
  case 0
  then show ?case by simp
next
  case (Suc n)
  let ?t = "snd (next_image False s)"
  have saved: "fst (save s) = None" using save_returns(1) [OF Suc.prems(1)] .
  have files: "image_files ?t = image_files s" by (rule next_image_saved(1) [OF saved])
  have idx: "current_image_index ?t =
      (current_image_index s + 1) mod int (length (image_files s))"
    using wrap_forward [OF Suc.prems(2,3)] by (simp only: next_image_saved(7) [OF saved])
  have unblocked: "current_label ?t = None \<or> ''image'' \<in> set (columns (doors_df ?t))"
    using save_returns(2) [OF Suc.prems(1)]
    by (simp add: next_image_saved(4,5) [OF saved])
  have range: "0 \<le> current_image_index ?t" "current_image_index ?t < int (length (image_files ?t))"
  proof -
    from Suc.prems(2,3) have "0 < int (length (image_files s))" by linarith
    then show "0 \<le> current_image_index ?t" "current_image_index ?t < int (length (image_files ?t))"
      unfolding idx files by (rule mod_in_range)+
  qed
  from Suc.IH [OF unblocked range] show ?case
    by (simp add: files idx mod_add_left_eq add.assoc)
qed

lemma repeat_previous_image:
  assumes "current_label s = None \<or> ''image'' \<in> set (columns (doors_df s))"
    and "0 \<le> current_image_index s" and "current_image_index s < int (length (image_files s))"
  shows "current_image_index (repeat n previous_image s) =
           (current_image_index s - int n) mod int (length (image_files s))"
  using assms
proof (induction n arbitrary: s)
  case 0
  then show ?case by simp
next
  case (Suc n)
  let ?t = "snd (previous_image s)"
  have saved: "fst (save s) = None" using save_returns(1) [OF Suc.prems(1)] .
  have files: "image_files ?t = image_files s" by (rule previous_image_saved(1) [OF saved])
  have idx: "current_image_index ?t =
      (current_image_index s - 1) mod int (length (image_files s))"
    using wrap_backward [OF Suc.prems(2,3)] by (simp only: previous_image_saved(7) [OF saved])
  have unblocked: "current_label ?t = None \<or> ''image'' \<in> set (columns (doors_df ?t))"
    using save_returns(2) [OF Suc.prems(1)]
    by (simp add: previous_image_saved(4,5) [OF saved])
  have range: "0 \<le> current_image_index ?t" "current_image_index ?t < int (length (image_files ?t))"
  proof -
    from Suc.prems(2,3) have "0 < int (length (image_files s))" by linarith
    then show "0 \<le> current_image_index ?t" "current_image_index ?t < int (length (image_files ?t))"
      unfolding idx files by (rule mod_in_range)+
  qed
  from Suc.IH [OF unblocked range] show ?case
    by (simp add: files idx mod_diff_left_eq algebra_simps)
qed

text \<open>
  C3. From a valid image index, \<open>n\<close> times the forward step (\<open>next_image\<close>) and then
  \<open>n\<close> times the backward step (\<open>previous_image\<close>) bring the image index back to where
  it started, for every \<open>n\<close> and whatever the steps save on the way.
\<close>

theorem forward_backward_returns:
  assumes "0 \<le> current_image_index s"
    and "current_image_index s < int (length (image_files s))"
  shows "current_image_index (repeat n previous_image (repeat n (next_image False) s)) =
         current_image_index s"
proof (cases "current_label s = None \<or> ''image'' \<in> set (columns (doors_df s))")
  case True
  let ?t = "repeat n (next_image False) s"
  from repeat_next_image [OF True assms, of n]
  have files: "image_files ?t = image_files s"
    and unblocked: "current_label ?t = None \<or> ''image'' \<in> set (columns (doors_df ?t))"
    and idx: "current_image_index ?t =
          (current_image_index s + int n) mod int (length (image_files s))"
    by simp_all
  have range: "0 \<le> current_image_index ?t" "current_image_index ?t < int (length (image_files ?t))"
  proof -
    from assms have "0 < int (length (image_files s))" by linarith
    then show "0 \<le> current_image_index ?t" "current_image_index ?t < int (length (image_files ?t))"
      unfolding idx files by (rule mod_in_range)+
  qed
  have "current_image_index (repeat n previous_image ?t) =
        (current_image_index s + int n - int n) mod int (length (image_files s))"
    by (simp only: repeat_previous_image [OF unblocked range] files idx mod_diff_left_eq)
  with assms show ?thesis by simp
next
  case False
  then have "current_label s \<noteq> None" "''image'' \<notin> set (columns (doors_df s))" by simp_all
  then have raises: "save s = (Some KeyError, s)" by (rule save_raises)
  then have "next_image False s = (Some KeyError, s)" "previous_image s = (Some KeyError, s)"
    using next_image_raised [of s KeyError] previous_image_raised [of s KeyError] by simp_all
  then show ?thesis by (simp add: repeat_raising)
qed

theorem forward_backward_returns_witness:
  "0 \<le> current_image_index example_session \<and>
   current_image_index example_session < int (length (image_files example_session)) \<and>
   current_image_index
     (repeat 5 previous_image (repeat 5 (next_image False) example_session)) = 0"
  using forward_backward_returns [of example_session 5]
  by (simp add: example_session_def)

subsection \<open>The example session\<close>

lemma example_upsert: "upsert (Some ''a.jpg'') ''open'' 1 empty_frame = Inr example_frame"
  by (simp add: upsert_def empty_frame_def column_values_def append_row_def add_column_def
      image_cell_def example_frame_def)

lemma example_csv:
  "to_csv example_frame = [[''image'', ''label'', ''door_id''], [''a.jpg'', ''open'', ''1'']]"
  by code_simp

lemma example_save: "fst (save example_session) = None"
  by (simp add: save_def example_session_def example_upsert)

subsection \<open>Skipping and saving\<close>

text \<open>
  C4. \<open>skip_image\<close> moves the image index by the forward step with wrap-around, to the
  index that \<open>next_image\<close> reaches whenever its \<open>save\<close> does not raise, and changes
  neither the frame nor any CSV file, whether or not a label is selected.
\<close>

theorem skip_leaves_store:
  "doors_df (snd (skip_image s)) = doors_df s \<and>
   csv_files (snd (skip_image s)) = csv_files s \<and>
   current_image_index (snd (skip_image s)) =
     (if int (length (image_files s)) \<le> current_image_index s + 1 then 0
      else current_image_index s + 1) \<and>
   (fst (save s) = None \<longrightarrow>
      current_image_index (snd (next_image False s)) =
      current_image_index (snd (skip_image s)))"
  by (simp add: skip_image_def skip_image_frame skip_image_index next_image_saved(7))

theorem skip_leaves_store_witness:
  "fst (save example_session) = None \<and>
   current_image_index (snd (next_image False example_session)) = 1 \<and>
   current_image_index (snd (skip_image example_session)) = 1 \<and>
   doors_df (snd (skip_image example_session)) = empty_frame \<and>
   csv_files (snd (skip_image example_session)) ''doors/doors.csv'' = None"
  using skip_leaves_store [of example_session] example_save
  by (simp add: example_session_def)

text \<open>
  C5. With a label selected, \<open>previous_image\<close>, like \<open>next_image\<close>, first upserts the
  row of the image on display into the frame and rewrites the whole CSV file from the
  frame, and then moves the image index (backward, with wrap-around); with no label
  selected, neither of the two changes the frame or any CSV file.
\<close>

theorem previous_persists_then_moves:
  "(current_label s = Some lab \<and>
    upsert (current_image s) lab (door_id s) (doors_df s) = Inr df \<longrightarrow>
      doors_df (snd (previous_image s)) = df \<and>
      csv_files (snd (previous_image s)) = (csv_files s)(path_to_csv s \<mapsto> to_csv df) \<and>
      current_image_index (snd (previous_image s)) =
        (if current_image_index s - 1 < 0 then int (length (image_files s)) - 1
         else current_image_index s - 1) \<and>
      doors_df (snd (next_image False s)) = df \<and>
      csv_files (snd (next_image False s)) = (csv_files s)(path_to_csv s \<mapsto> to_csv df) \<and>
      current_image_index (snd (next_image False s)) =
        (if int (length (image_files s)) \<le> current_image_index s + 1 then 0
         else current_image_index s + 1)) \<and>
   (current_label s = None \<longrightarrow>
      doors_df (snd (previous_image s)) = doors_df s \<and>
      csv_files (snd (previous_image s)) = csv_files s \<and>
      doors_df (snd (next_image False s)) = doors_df s \<and>
      csv_files (snd (next_image False s)) = csv_files s)"
proof (intro conjI impI)
  assume "current_label s = None"
  then have unsaved: "save s = (None, s)" by (simp add: save_def)
  then have saved: "fst (save s) = None" by simp
  show "doors_df (snd (previous_image s)) = doors_df s"
    and "csv_files (snd (previous_image s)) = csv_files s"
    and "doors_df (snd (next_image False s)) = doors_df s"
    and "csv_files (snd (next_image False s)) = csv_files s"
    by (simp_all add: previous_image_saved [OF saved] next_image_saved [OF saved] unsaved)
next
  assume "current_label s = Some lab \<and>
    upsert (current_image s) lab (door_id s) (doors_df s) = Inr df"
  then have written: "save s =
      (None, s\<lparr>doors_df := df, csv_files := (csv_files s)(path_to_csv s \<mapsto> to_csv df)\<rparr>)"
    by (simp add: save_def)
  then have saved: "fst (save s) = None" by simp
  show "doors_df (snd (previous_image s)) = df"
    and "csv_files (snd (previous_image s)) = (csv_files s)(path_to_csv s \<mapsto> to_csv df)"
    and "doors_df (snd (next_image False s)) = df"
    and "csv_files (snd (next_image False s)) = (csv_files s)(path_to_csv s \<mapsto> to_csv df)"
    by (simp_all add: previous_image_saved [OF saved] next_image_saved [OF saved] written)
  show "current_image_index (snd (previous_image s)) =
        (if current_image_index s - 1 < 0 then int (length (image_files s)) - 1
         else current_image_index s - 1)"
    by (rule previous_image_saved(7) [OF saved])
  show "current_image_index (snd (next_image False s)) =
        (if int (length (image_files s)) \<le> current_image_index s + 1 then 0
         else current_image_index s + 1)"
    by (rule next_image_saved(7) [OF saved])
qed

theorem previous_persists_then_moves_witness:
  "current_label example_session = Some ''open'' \<and>
   csv_files (snd (previous_image example_session)) ''doors/doors.csv'' =
     Some [[''image'', ''label'', ''door_id''], [''a.jpg'', ''open'', ''1'']] \<and>
   current_image_index (snd (previous_image example_session)) = 2 \<and>
   current_label (example_session\<lparr>current_label := None\<rparr>) = None \<and>
   csv_files (snd (previous_image (example_session\<lparr>current_label := None\<rparr>)))
     ''doors/doors.csv'' = None"
  using previous_persists_then_moves [of example_session "''open''" example_frame]
    previous_persists_then_moves [of "example_session\<lparr>current_label := None\<rparr>"]
    example_upsert
  by (simp add: example_session_def example_csv)

subsection \<open>The label index\<close>

lemma previous_label_valid:
  assumes "0 \<le> current_label_index s" and "current_label_index s < int (length (labels s))"
  shows "fst (previous_label s) = None"
    and "current_label_index (snd (previous_label s)) =
          (if current_label_index s = 0 then int (length (labels s)) - 1
           else current_label_index s - 1)"
    and "current_label (snd (previous_label s)) =
          Some (labels s ! nat (current_label_index (snd (previous_label s))))"
  using assms by (auto simp: previous_label_def Let_def py_getitem_def)

lemma next_label_valid:
  assumes "0 \<le> current_label_index s" and "current_label_index s < int (length (labels s))"
  shows "fst (next_label s) = None"
    and "current_label_index (snd (next_label s)) =
          (if current_label_index s = int (length (labels s)) - 1 then 0
           else current_label_index s + 1)"
    and "current_label (snd (next_label s)) =
          Some (labels s ! nat (current_label_index (snd (next_label s))))"
  using assms by (auto simp: next_label_def Let_def py_getitem_def)

text \<open>
  C7. With a label list that is not empty: from label index 0, \<open>previous_label\<close> yields the
  last index of the list, and from the last index \<open>next_label\<close> yields 0; both return
  without an exception, and the selected label becomes the label at the new index.
\<close>

theorem label_cycling_wraps:
  assumes "labels s \<noteq> []"
  shows "(current_label_index s = 0 \<longrightarrow>
            fst (previous_label s) = None \<and>
            current_label_index (snd (previous_label s)) = int (length (labels s)) - 1 \<and>
            current_label (snd (previous_label s)) = Some (last (labels s))) \<and>
         (current_label_index s = int (length (labels s)) - 1 \<longrightarrow>
            fst (next_label s) = None \<and>
            current_label_index (snd (next_label s)) = 0 \<and>
            current_label (snd (next_label s)) = Some (hd (labels s)))"
proof (intro conjI impI)
  assume first: "current_label_index s = 0"
  with assms have range: "0 \<le> current_label_index s"
    "current_label_index s < int (length (labels s))" by simp_all
  show "fst (previous_label s) = None" by (rule previous_label_valid(1) [OF range])
  show idx: "current_label_index (snd (previous_label s)) = int (length (labels s)) - 1"
    using first by (simp add: previous_label_valid(2) [OF range])
  have "nat (int (length (labels s)) - 1) = length (labels s) - 1" by simp
  with assms show "current_label (snd (previous_label s)) = Some (last (labels s))"
    by (simp add: previous_label_valid(3) [OF range] idx last_conv_nth)
next
  assume final: "current_label_index s = int (length (labels s)) - 1"
  with assms have range: "0 \<le> current_label_index s"
    "current_label_index s < int (length (labels s))" by simp_all
  show "fst (next_label s) = None" by (rule next_label_valid(1) [OF range])
  show idx: "current_label_index (snd (next_label s)) = 0"
    using final by (simp add: next_label_valid(2) [OF range])
  from assms show "current_label (snd (next_label s)) = Some (hd (labels s))"
    by (simp add: next_label_valid(3) [OF range] idx hd_conv_nth)
qed

theorem label_cycling_wraps_witness:
  "labels example_session \<noteq> [] \<and> current_label_index example_session = 0 \<and>
   current_label_index (snd (previous_label example_session)) = 1 \<and>
   current_label (snd (previous_label example_session)) = Some ''closed'' \<and>
   current_label_index (snd (previous_label example_session)) =
     int (length (labels (snd (previous_label example_session)))) - 1 \<and>
   current_label_index (snd (next_label (snd (previous_label example_session)))) = 0 \<and>
   current_label (snd (next_label (snd (previous_label example_session)))) = Some ''open''"
  using label_cycling_wraps [of example_session]
    label_cycling_wraps [of "snd (previous_label example_session)"]
  by (simp add: example_session_def DOOR_LABELS_def previous_label_def py_getitem_def)

text \<open>
  The constructor establishes the validity: a labeler that it returns for a label list
  that is not empty has valid indices (it raises when there is no image file).
\<close>

lemma init_valid_indices:
  assumes "init images_path csv_path labs door listing shuffle files images = Inr s"
    and "labs \<noteq> []"
  shows "valid_indices s"
proof -
  from assms(1) obtain df s0 where
    s0: "s0 = \<lparr>door_id = door, path_to_images = images_path, path_to_csv = csv_path,
                image_files = load_image_files listing shuffle, labels = labs,
                current_image = None, current_image_index = 0, current_label = None,
                current_label_index = 0, image' = None, doors_df = df,
                csv_files = files, image_dir = images\<rparr>"
    and loaded: "load_image s0 = (None, s)"
    by (auto simp: init_def split: sum.splits option.splits prod.splits)
  from loaded have "py_getitem (image_files s0) (current_image_index s0) \<noteq> Inl IndexError"
    by (auto simp: load_image_def split: sum.splits)
  then have "image_files s0 \<noteq> []"
    by (auto simp: py_getitem_def s0)
  moreover from loaded have "s = snd (load_image s0)" by simp
  ultimately show ?thesis
    using assms(2) by (simp add: valid_indices_def load_image_frame s0)
qed

text \<open>
  C9. A state whose image index and label index are valid indices into the image files
  and the labels keeps both valid under every navigation callback: \<open>previous_image\<close>,
  \<open>next_image\<close>, \<open>skip_image\<close>, \<open>previous_label\<close>, \<open>next_label\<close> and
  \<open>select_label\<close> on a selection of the list box (positions of its entries, one entry
  for each label), whether or not the callback raises.
\<close>

theorem indices_stay_valid:
  assumes "valid_indices s" and "list_all (\<lambda>i. i < length (labels s)) curselection"
  shows "valid_indices (snd (previous_image s)) \<and>
         valid_indices (snd (next_image False s)) \<and>
         valid_indices (snd (skip_image s)) \<and>
         valid_indices (snd (previous_label s)) \<and>
         valid_indices (snd (next_label s)) \<and>
         valid_indices (snd (select_label curselection s))"
proof (intro conjI)
  from assms(1) have img: "0 \<le> current_image_index s"
      "current_image_index s < int (length (image_files s))"
    and lab: "0 \<le> current_label_index s"
      "current_label_index s < int (length (labels s))"
    by (simp_all add: valid_indices_def)
  show "valid_indices (snd (skip_image s))"
    using img lab
    by (auto simp: valid_indices_def skip_image_def skip_image_frame skip_image_index)
  show "valid_indices (snd (previous_image s))"
  proof (cases "fst (save s)")
    case None
    with img lab show ?thesis
      by (auto simp: valid_indices_def previous_image_saved)
  next
    case (Some e)
    with assms(1) show ?thesis
      by (simp add: previous_image_raised valid_indices_def save_frame)
  qed
  show "valid_indices (snd (next_image False s))"
  proof (cases "fst (save s)")
    case None
    with img lab show ?thesis
      by (auto simp: valid_indices_def next_image_saved)
  next
    case (Some e)
    with assms(1) show ?thesis
      by (simp add: next_image_raised valid_indices_def save_frame)
  qed
  show "valid_indices (snd (previous_label s))"
    using img lab by (auto simp: valid_indices_def previous_label_def Let_def py_getitem_def)
  show "valid_indices (snd (next_label s))"
    using img lab by (auto simp: valid_indices_def next_label_def Let_def py_getitem_def)
  show "valid_indices (snd (select_label curselection s))"
  proof (cases curselection)
    case Nil
    with assms(1) show ?thesis by (simp add: select_label_def py_getitem_def)
  next
    case (Cons i rest)
    with assms(2) have "i < length (labels s)" by simp
    with Cons img show ?thesis
      by (simp add: select_label_def py_getitem_def valid_indices_def Let_def)
  qed
qed

theorem indices_stay_valid_witness:
  "valid_indices example_session \<and>
   list_all (\<lambda>i. i < length (labels example_session)) [1] \<and>
   valid_indices (snd (previous_image example_session)) \<and>
   valid_indices (snd (next_image False example_session)) \<and>
   valid_indices (snd (skip_image example_session)) \<and>
   valid_indices (snd (previous_label example_session)) \<and>
   valid_indices (snd (next_label example_session)) \<and>
   valid_indices (snd (select_label [1] example_session))"
  using indices_stay_valid [of example_session "[1]"]
  by (simp add: example_session_def DOOR_LABELS_def valid_indices_def)

subsection \<open>The crop\<close>

text \<open>
  C6, as the code has it. \<open>prepare_image\<close> raises on no image, however small: it
  returns an image of 280 by 840 pixels, the size of the crop rectangle, whose pixel at
  \<open>(x, y)\<close> is the pixel of the source at \<open>(1020 + x, 510 + y)\<close> where the source has
  one and a zero pixel elsewhere. Where the rectangle lies within the source the result
  is the sub-region of the source. The result depends on the source image alone.
\<close>

theorem prepare_image_pads:
  "\<exists>p. prepare_image im = Inr p \<and> width p = 280 \<and> height p = 840 \<and>
       (\<forall>x y. pixel p x y =
          (if 0 \<le> 1020 + x \<and> 1020 + x < width im \<and> 0 \<le> 510 + y \<and> 510 + y < height im
           then pixel im (1020 + x) (510 + y) else 0)) \<and>
       (\<not> exceeds_bounds IMAGE_CROP_AREA im \<longrightarrow>
          (\<forall>x y. 0 \<le> x \<and> x < 280 \<and> 0 \<le> y \<and> y < 840 \<longrightarrow>
             pixel p x y = pixel im (1020 + x) (510 + y)))"
  by (simp add: prepare_image_def crop_def IMAGE_CROP_AREA_def exceeds_bounds_def)

theorem prepare_image_pads_witness:
  "\<not> exceeds_bounds IMAGE_CROP_AREA example_image \<and>
   (\<exists>p. prepare_image example_image = Inr p \<and> width p = 280 \<and> height p = 840 \<and>
        pixel p 0 0 = pixel example_image 1020 510)"
  using prepare_image_pads [of example_image]
  by (auto simp: exceeds_bounds_def IMAGE_CROP_AREA_def example_image_def)

theorem prepare_image_fails_counterexample:
  "exceeds_bounds IMAGE_CROP_AREA small_image \<and> \<not> isl (prepare_image small_image)"
  by (simp add: exceeds_bounds_def IMAGE_CROP_AREA_def small_image_def prepare_image_def
      crop_def)

subsection \<open>Loading the frame\<close>



lemma example_file_read:
  "(case read_csv example_file of Inl e \<Rightarrow> [] | Inr df \<Rightarrow> map (\<lambda>r. map r (columns df)) (rows df))
     = [[Str ''a.jpg'', Str ''open'', Num 1, Str ''dark''],
        [Str ''b.jpg'', Str ''closed'', Num 1, NaN]]"
  by code_simp


subsection \<open>The rows after an upsert\<close>

text \<open>
  Adding columns changes no cell of a column the frame had. What is added to the rows is
  called a padding here.
\<close>

lemma add_column_rows:
  "\<exists>pad. rows (add_column c df) = map pad (rows df) \<and>
         (\<forall>r c'. c' \<in> set (columns df) \<longrightarrow> pad r c' = r c')"
proof (cases "c \<in> set (columns df)")
  case True
  then have "rows (add_column c df) = map id (rows df)" by (simp add: add_column_def)
  then show ?thesis by (intro exI [of _ id]) simp
next
  case False
  then have "rows (add_column c df) = map (\<lambda>r. r(c := NaN)) (rows df)"
    by (simp add: add_column_def)
  with False show ?thesis by (intro exI [of _ "\<lambda>r. r(c := NaN)"]) auto
qed

lemma fold_add_column_rows:
  "\<exists>pad. rows (fold add_column cs df) = map pad (rows df) \<and>
         (\<forall>r c'. c' \<in> set (columns df) \<longrightarrow> pad r c' = r c')"
proof (induction cs arbitrary: df)
  case Nil
  show ?case by (intro exI [of _ id]) simp
next
  case (Cons c cs)
  from add_column_rows [of c df] obtain p where
    p: "rows (add_column c df) = map p (rows df)"
       "\<And>r c'. c' \<in> set (columns df) \<Longrightarrow> p r c' = r c'" by blast
  from Cons.IH [of "add_column c df"] obtain q where
    q: "rows (fold add_column cs (add_column c df)) = map q (rows (add_column c df))"
       "\<And>r c'. c' \<in> set (columns (add_column c df)) \<Longrightarrow> q r c' = r c'" by blast
  have "rows (fold add_column (c # cs) df) = map (q \<circ> p) (rows df)"
    by (simp add: p(1) q(1))
  moreover have "\<forall>r c'. c' \<in> set (columns df) \<longrightarrow> (q \<circ> p) r c' = r c'"
    using p(2) q(2) columns_add_column [of df c] by auto
  ultimately show ?case by blast
qed

lemma cell_eq_Str: "cell_eq v (Str t) = (v = Str t)"
  by (auto simp: cell_eq_def)

lemma has_rows_list:
  "list_ex (\<lambda>v. cell_eq v (Str img)) (map (\<lambda>r. r ''image'') rs) =
     (filter (\<lambda>r. r ''image'' = Str img) rs \<noteq> [])"
  by (induction rs) (simp_all add: cell_eq_Str)

lemma has_rows:
  "list_ex (\<lambda>v. cell_eq v (Str img)) (map (\<lambda>r. r ''image'') (rows df)) = (rows_of img df \<noteq> [])"
  by (simp only: has_rows_list rows_of_def)

lemma add_column_mem: "c \<in> set (columns (add_column c df))"
  by (simp add: add_column_def)

lemma fold_add_column_mem: "c \<in> set cs \<Longrightarrow> c \<in> set (columns (fold add_column cs df))"
proof (induction cs arbitrary: df)
  case Nil
  then show ?case by simp
next
  case (Cons a cs)
  show ?case
  proof (cases "c = a")
    case True
    have "a \<in> set (columns (add_column a df))" by (rule add_column_mem)
    with columns_fold_add [of "add_column a df" cs] True show ?thesis by auto
  next
    case False
    with Cons.prems have "c \<in> set cs" by simp
    from Cons.IH [OF this, of "add_column a df"] show ?thesis by simp
  qed
qed

lemma zip_map_map:
  "map (\<lambda>(m, r). g m r) (zip (map p xs) (map h xs)) = map (\<lambda>x. g (p x) (h x)) xs"
  by (induction xs) simp_all

text \<open>
  The frame after \<open>upsert\<close>, for an image on display and a frame with an \<open>image\<close>
  column: either the image has rows, and these get the label, or it has none, and one
  row is added; all other cells of the old columns stay.
\<close>

lemma upsert_rows:
  assumes "''image'' \<in> set (columns df)"
  shows "\<exists>df' pad. upsert (Some img) lab door df = Inr df' \<and>
           (\<forall>r c. c \<in> set (columns df) \<longrightarrow> pad r c = r c) \<and>
           set (columns df) \<union> {''label''} \<subseteq> set (columns df') \<and>
           (if rows_of img df \<noteq> []
            then rows df' = map (\<lambda>r. if r ''image'' = Str img
                                       then (pad r)(''label'' := Str lab) else pad r) (rows df)
            else \<exists>new. rows df' = map pad (rows df) @ [new] \<and>
                   new ''image'' = Str img \<and> new ''label'' = Str lab)"
proof (cases "rows_of img df = []")
  case True
  then have none: "\<not> list_ex (\<lambda>v. cell_eq v (Str img)) (map (\<lambda>r. r ''image'') (rows df))"
    by (simp add: has_rows)
  let ?d = "[(''image'', Str img), (''label'', Str lab), (''door_id'', Num door)]"
  from fold_add_column_rows [of "map fst ?d" df] obtain pad where
    pad: "rows (fold add_column (map fst ?d) df) = map pad (rows df)"
         "\<forall>r c'. c' \<in> set (columns df) \<longrightarrow> pad r c' = r c'" by blast
  have up: "upsert (Some img) lab door df = Inr (append_row ?d df)"
    using assms none by (simp add: upsert_def column_values_def image_cell_def)
  have "''label'' \<in> set (columns (fold add_column (map fst ?d) df))"
    by (rule fold_add_column_mem) simp
  then have "''label'' \<in> set (columns (append_row ?d df))"
    by (simp add: append_row_def Let_def)
  with columns_append_row [of df ?d]
  have cols: "set (columns df) \<union> {''label''} \<subseteq> set (columns (append_row ?d df))"
    by simp
  have new: "\<exists>new. rows (append_row ?d df) = map pad (rows df) @ [new] \<and>
      new ''image'' = Str img \<and> new ''label'' = Str lab"
    using pad(1) by (simp add: append_row_def Let_def)
  show ?thesis
  proof (intro exI conjI)
    show "upsert (Some img) lab door df = Inr (append_row ?d df)" by (rule up)
    show "\<forall>r c. c \<in> set (columns df) \<longrightarrow> pad r c = r c" by (rule pad(2))
    show "set (columns df) \<union> {''label''} \<subseteq> set (columns (append_row ?d df))"
      by (rule cols)
    show "if rows_of img df \<noteq> []
      then rows (append_row ?d df) = map (\<lambda>r. if r ''image'' = Str img
             then (pad r)(''label'' := Str lab) else pad r) (rows df)
      else \<exists>new. rows (append_row ?d df) = map pad (rows df) @ [new] \<and>
             new ''image'' = Str img \<and> new ''label'' = Str lab"
      using True new by simp
  qed
next
  case False
  then have some: "list_ex (\<lambda>v. cell_eq v (Str img)) (map (\<lambda>r. r ''image'') (rows df))"
    by (simp add: has_rows)
  from add_column_rows [of "''label''" df] obtain pad where
    pad: "rows (add_column ''label'' df) = map pad (rows df)"
         "\<forall>r c'. c' \<in> set (columns df) \<longrightarrow> pad r c' = r c'" by blast
  let ?sel = "map (\<lambda>v. cell_eq v (Str img)) (map (\<lambda>r. r ''image'') (rows df))"
  let ?df' = "loc_set ?sel ''label'' (Str lab) df"
  have up: "upsert (Some img) lab door df = Inr ?df'"
    using assms some by (simp add: upsert_def column_values_def image_cell_def)
  have "''label'' \<in> set (columns ?df')"
    using add_column_mem [of "''label''" df] by (simp add: loc_set_def Let_def)
  with columns_loc_set [of df ?sel "''label''" "Str lab"]
  have cols: "set (columns df) \<union> {''label''} \<subseteq> set (columns ?df')"
    by simp
  have "rows ?df' = map (\<lambda>(m, r). if m then r(''label'' := Str lab) else r)
      (zip (map (\<lambda>r. cell_eq (r ''image'') (Str img)) (rows df)) (map pad (rows df)))"
    by (simp add: loc_set_def Let_def pad(1) comp_def)
  also have "\<dots> = map (\<lambda>r. if cell_eq (r ''image'') (Str img)
                             then (pad r)(''label'' := Str lab) else pad r) (rows df)"
    by (rule zip_map_map)
  also have "\<dots> = map (\<lambda>r. if r ''image'' = Str img
                             then (pad r)(''label'' := Str lab) else pad r) (rows df)"
    by (simp add: cell_eq_Str)
  finally have upd: "rows ?df' = map (\<lambda>r. if r ''image'' = Str img
      then (pad r)(''label'' := Str lab) else pad r) (rows df)" .
  show ?thesis
  proof (intro exI conjI)
    show "upsert (Some img) lab door df = Inr ?df'" by (rule up)
    show "\<forall>r c. c \<in> set (columns df) \<longrightarrow> pad r c = r c" by (rule pad(2))
    show "set (columns df) \<union> {''label''} \<subseteq> set (columns ?df')" by (rule cols)
    show "if rows_of img df \<noteq> []
      then rows ?df' = map (\<lambda>r. if r ''image'' = Str img
             then (pad r)(''label'' := Str lab) else pad r) (rows df)
      else \<exists>new. rows ?df' = map pad (rows df) @ [new] \<and>
             new ''image'' = Str img \<and> new ''label'' = Str lab"
      using False upd by simp
  qed
qed


lemma filter_map_image:
  assumes "\<And>r. r \<in> set rs \<Longrightarrow> g r ''image'' = r ''image''"
  shows "filter (\<lambda>r. P (r ''image'')) (map g rs) = map g (filter (\<lambda>r. P (r ''image'')) rs)"
  using assms by (induction rs) simp_all

lemma map_columns_pad:
  assumes "\<forall>r c. c \<in> set cs \<longrightarrow> pad r c = r c"
  shows "map (\<lambda>r. map r cs) (map pad rs) = map (\<lambda>r. map r cs) rs"
  using assms by simp

lemma upsert_effect:
  assumes "''image'' \<in> set (columns df)"
  shows "\<exists>df'. upsert (Some img) lab door df = Inr df' \<and>
           ''image'' \<in> set (columns df') \<and> ''label'' \<in> set (columns df') \<and>
           label_cells img df' = replicate (max 1 (length (rows_of img df))) (Str lab) \<and>
           (\<forall>j. length (rows_of j df') =
                 (if j = img then max 1 (length (rows_of j df)) else length (rows_of j df))) \<and>
           map (\<lambda>r. map r (columns df)) (other_rows img df') =
             map (\<lambda>r. map r (columns df)) (other_rows img df)"
proof -
  from upsert_rows [OF assms, of img lab door] obtain df' pad where
    up: "upsert (Some img) lab door df = Inr df'"
    and pad: "\<forall>r c. c \<in> set (columns df) \<longrightarrow> pad r c = r c"
    and cols: "set (columns df) \<union> {''label''} \<subseteq> set (columns df')"
    and shape: "if rows_of img df \<noteq> []
            then rows df' = map (\<lambda>r. if r ''image'' = Str img
                                       then (pad r)(''label'' := Str lab) else pad r) (rows df)
            else \<exists>new. rows df' = map pad (rows df) @ [new] \<and>
                   new ''image'' = Str img \<and> new ''label'' = Str lab"
    by blast
  from pad assms have pad_image: "\<And>r. pad r ''image'' = r ''image''" by simp
  have columns: "''image'' \<in> set (columns df')" "''label'' \<in> set (columns df')"
    using cols assms by auto
  show ?thesis
  proof (cases "rows_of img df = []")
    case True
    with shape obtain new where
      new: "rows df' = map pad (rows df) @ [new]" "new ''image'' = Str img"
        "new ''label'' = Str lab" by auto
    have padded: "\<And>P. filter (\<lambda>r. P (r ''image'')) (map pad (rows df)) =
        map pad (filter (\<lambda>r. P (r ''image'')) (rows df))"
      by (rule filter_map_image) (simp add: pad_image)
    have of_img: "rows_of img df' = [new]"
      using True padded [of "\<lambda>v. v = Str img"] by (simp add: rows_of_def new)
    have of_other: "\<And>j. j \<noteq> img \<Longrightarrow> rows_of j df' = map pad (rows_of j df)"
      using padded by (simp add: rows_of_def new)
    have others: "other_rows img df' = map pad (other_rows img df)"
      using padded [of "\<lambda>v. v \<noteq> Str img"] by (simp add: other_rows_def new)
    have "label_cells img df' = replicate (max 1 (length (rows_of img df))) (Str lab)"
      by (simp add: label_cells_def of_img new True)
    moreover have "\<forall>j. length (rows_of j df') =
        (if j = img then max 1 (length (rows_of j df)) else length (rows_of j df))"
      using of_img True by (simp add: of_other)
    moreover have "map (\<lambda>r. map r (columns df)) (other_rows img df') =
        map (\<lambda>r. map r (columns df)) (other_rows img df)"
      unfolding others by (rule map_columns_pad [OF pad])
    ultimately show ?thesis using up columns by blast
  next
    case False
    let ?g = "\<lambda>r. if r ''image'' = Str img then (pad r)(''label'' := Str lab) else pad r"
    from False shape have upd: "rows df' = map ?g (rows df)" by simp
    have updated: "\<And>P. filter (\<lambda>r. P (r ''image'')) (map ?g (rows df)) =
        map ?g (filter (\<lambda>r. P (r ''image'')) (rows df))"
      by (rule filter_map_image) (simp add: pad_image)
    have of_any: "\<And>j. rows_of j df' = map ?g (rows_of j df)"
      using updated by (simp add: rows_of_def upd)
    have "other_rows img df' = map ?g (other_rows img df)"
      using updated [of "\<lambda>v. v \<noteq> Str img"] by (simp add: other_rows_def upd)
    also have "\<dots> = map pad (other_rows img df)"
      by (simp add: other_rows_def)
    finally have others: "other_rows img df' = map pad (other_rows img df)" .
    have "label_cells img df' = map (\<lambda>r. r ''label'') (map ?g (rows_of img df))"
      by (simp only: label_cells_def of_any)
    also have "\<dots> = map (\<lambda>r. Str lab) (rows_of img df)"
      by (simp add: rows_of_def)
    also have "\<dots> = replicate (length (rows_of img df)) (Str lab)"
      by (simp add: map_replicate_const)
    also from False have "length (rows_of img df) = max 1 (length (rows_of img df))"
      by (cases "rows_of img df") simp_all
    finally have "label_cells img df' =
        replicate (max 1 (length (rows_of img df))) (Str lab)" .
    moreover have "\<forall>j. length (rows_of j df') =
        (if j = img then max 1 (length (rows_of j df)) else length (rows_of j df))"
      using False by (cases "rows_of img df") (simp_all add: of_any)
    moreover have "map (\<lambda>r. map r (columns df)) (other_rows img df') =
        map (\<lambda>r. map r (columns df)) (other_rows img df)"
      unfolding others by (rule map_columns_pad [OF pad])
    ultimately show ?thesis using up columns by blast
  qed
qed


lemma save_selected:
  assumes "current_image s = Some img" and "current_label s = Some lab"
    and "upsert (Some img) lab (door_id s) (doors_df s) = Inr df'"
  shows "save s = (None, s\<lparr>doors_df := df',
                           csv_files := (csv_files s)(path_to_csv s \<mapsto> to_csv df')\<rparr>)"
  using assms by (simp add: save_def)

lemma save_as_effect:
  assumes "current_image s = Some img" and "''image'' \<in> set (columns (doors_df s))"
  shows "current_image (save_as lab s) = Some img \<and>
         ''image'' \<in> set (columns (doors_df (save_as lab s))) \<and>
         label_cells img (doors_df (save_as lab s)) =
           replicate (max 1 (length (rows_of img (doors_df s)))) (Str lab) \<and>
         (\<forall>j. length (rows_of j (doors_df (save_as lab s))) =
               (if j = img then max 1 (length (rows_of j (doors_df s)))
                else length (rows_of j (doors_df s))))"
proof -
  let ?s = "s\<lparr>current_label := Some lab\<rparr>"
  from upsert_effect [OF assms(2), of img lab "door_id s"] obtain df' where
    up: "upsert (Some img) lab (door_id s) (doors_df s) = Inr df'"
    and rest: "''image'' \<in> set (columns df')"
      "label_cells img df' = replicate (max 1 (length (rows_of img (doors_df s)))) (Str lab)"
      "\<forall>j. length (rows_of j df') =
            (if j = img then max 1 (length (rows_of j (doors_df s)))
             else length (rows_of j (doors_df s)))"
    by blast
  have "save ?s = (None, ?s\<lparr>doors_df := df',
      csv_files := (csv_files ?s)(path_to_csv ?s \<mapsto> to_csv df')\<rparr>)"
    by (rule save_selected [of ?s img lab df']) (simp_all add: assms(1) up)
  then have "doors_df (save_as lab s) = df'" "current_image (save_as lab s) = Some img"
    by (simp_all add: save_as_def assms(1))
  with rest show ?thesis by simp
qed

subsection \<open>One row for each image\<close>

text \<open>
  C2, as the code has it. \<open>save\<close> adds a row only for an image that has none: with
  \<open>n\<close> rows of the image on display in the frame before, saving it under one label
  leaves \<open>max 1 n\<close> rows of it and as many rows of every other image as before, and
  saving it again under a second label leaves \<open>max 1 n\<close> rows of it, all with the
  second label. So a frame with at most one row for each image keeps that, and the saved
  image has exactly one row; rows that a loaded file repeats stay repeated.
\<close>

theorem save_twice_keeps_count:
  assumes "current_image s = Some img" and "''image'' \<in> set (columns (doors_df s))"
  shows "length (rows_of j (doors_df (save_as l1 s))) =
           (if j = img then max 1 (length (rows_of j (doors_df s)))
            else length (rows_of j (doors_df s))) \<and>
         label_cells img (doors_df (save_as l2 (save_as l1 s))) =
           replicate (max 1 (length (rows_of img (doors_df s)))) (Str l2)"
proof -
  note first = save_as_effect [OF assms, of l1]
  from first have again: "current_image (save_as l1 s) = Some img"
    "''image'' \<in> set (columns (doors_df (save_as l1 s)))" by simp_all
  from first have count: "length (rows_of img (doors_df (save_as l1 s))) =
      max 1 (length (rows_of img (doors_df s)))" by simp
  from save_as_effect [OF again, of l2]
  have "label_cells img (doors_df (save_as l2 (save_as l1 s))) =
      replicate (max 1 (length (rows_of img (doors_df (save_as l1 s))))) (Str l2)" by simp
  then have "label_cells img (doors_df (save_as l2 (save_as l1 s))) =
      replicate (max 1 (length (rows_of img (doors_df s)))) (Str l2)"
    by (simp only: count max.left_idem)
  with first show ?thesis by simp
qed

theorem save_twice_keeps_count_witness:
  "current_image example_session = Some ''a.jpg'' \<and>
   ''image'' \<in> set (columns (doors_df example_session)) \<and>
   length (rows_of ''a.jpg'' (doors_df example_session)) = 0 \<and>
   length (rows_of ''a.jpg'' (doors_df (save_as ''open'' example_session))) = 1 \<and>
   label_cells ''a.jpg'' (doors_df (save_as ''closed'' (save_as ''open'' example_session))) =
     [Str ''closed'']"
  using save_twice_keeps_count [of example_session "''a.jpg''" "''a.jpg''" "''open''" "''closed''"]
  by (simp add: example_session_def empty_frame_def rows_of_def)

theorem one_row_per_image_counterexample:
  "map_sum id (\<lambda>s. label_cells ''a.jpg'' (doors_df (save_as ''closed'' (save_as ''open'' s))))
     duplicate_session = Inr [Str ''closed'', Str ''closed'']"
  by code_simp

subsection \<open>The rows of the other images\<close>




subsection \<open>Writing a frame and reading it back\<close>



















lemma image_file_plain_text:
  assumes "endswith file ''.jpg'' \<or> endswith file ''.png''"
  shows "plain_text file"
proof -
  from assms obtain n where "drop n file = ''.jpg'' \<or> drop n file = ''.png''"
    unfolding endswith_def by blast
  then have "CHR ''p'' \<in> set (drop n file)" by auto
  then have p: "CHR ''p'' \<in> set file" by (rule in_set_dropD)
  have "\<not> list_all (\<lambda>c. c \<in> set number_chars) file"
  proof
    assume "list_all (\<lambda>c. c \<in> set number_chars) file"
    with p have "CHR ''p'' \<in> set number_chars" by (simp add: list_all_iff)
    then show False by (simp add: number_chars_def)
  qed
  moreover from \<open>CHR ''p'' \<in> set file\<close> have "\<not> is_na file"
    by (auto simp: is_na_def na_values_def)
  moreover from \<open>CHR ''p'' \<in> set file\<close> have "file \<notin> set bool_values"
    by (auto simp: bool_values_def)
  ultimately show ?thesis by (simp add: plain_text_def)
qed

subsection \<open>Saving and loading again\<close>




end
